theory Spec2Isabelle
  imports Complex_Main
begin

section \<open>Python values and exceptions\<close>

text \<open>
  The exceptions that the modelled code paths can raise.  \<open>ValueError\<close> is raised by
  \<open>simpy.Resource\<close> for a capacity that is not positive and by \<open>env.timeout\<close> for a
  negative delay, \<open>KeyError\<close> by a dictionary subscript with an absent key,
  \<open>IndexError\<close> by a list subscript out of range and \<open>TypeError\<close> by \<open>int(None)\<close>.
\<close>

datatype py_error = KeyError | ValueError | TypeError | IndexError

text \<open>
  A Python \<open>float\<close> as far as the simulation uses it: a finite number (virtual time is
  idealised to the reals) or \<open>float('inf')\<close>.  Both constructors are values of the one
  type \<open>float\<close>; \<open>isinf\<close> is \<open>math.isinf\<close>.
\<close>

datatype pyfloat = Finite real | PosInf

fun isinf :: "pyfloat \<Rightarrow> bool" where
  "isinf (Finite x) = False"
| "isinf PosInf = True"

section \<open>The resource pool\<close>

text \<open>
  Modelled from the spec: the pool of section 4.2 is \<open>simpy.Resource\<close>, a class of the
  SimPy library that \<open>setup_resource_environment\<close> instantiates; its code is not part of
  the repository.  A request object is identified by a number.  \<open>users\<close> are the granted
  requests (the spec's \<open>heldCount\<close> is their number, SimPy's \<open>count\<close>), \<open>put_queue\<close> is
  the FIFO wait queue.  The constructor rejects a capacity that is not positive.
  \<open>request\<close> appends to the queue and then serves the head of the queue if a unit is
  free; \<open>release\<close> takes the request out of \<open>users\<close>, if it is there, and then serves
  the head of the queue; \<open>cancel\<close> removes a request that is still queued.  Only the
  head of the queue is ever served, so the order is first come, first served.
\<close>

type_synonym request = nat

record resource =
  capacity :: int
  users :: "request list"
  put_queue :: "request list"

definition Resource :: "int \<Rightarrow> py_error + resource" where
  "Resource cap =
     (if cap \<le> 0 then Inl ValueError
      else Inr \<lparr>capacity = cap, users = [], put_queue = []\<rparr>)"

definition heldCount :: "resource \<Rightarrow> int" where
  "heldCount r = int (length (users r))"

definition trigger_put :: "resource \<Rightarrow> resource" where
  "trigger_put r =
     (case put_queue r of
        [] \<Rightarrow> r
      | q # qs \<Rightarrow>
          if heldCount r < capacity r
          then r\<lparr>users := users r @ [q], put_queue := qs\<rparr>
          else r)"

definition request :: "request \<Rightarrow> resource \<Rightarrow> resource" where
  "request q r = trigger_put (r\<lparr>put_queue := put_queue r @ [q]\<rparr>)"

definition release :: "request \<Rightarrow> resource \<Rightarrow> resource" where
  "release q r = trigger_put (r\<lparr>users := remove1 q (users r)\<rparr>)"

definition cancel :: "request \<Rightarrow> resource \<Rightarrow> resource" where
  "cancel q r = r\<lparr>put_queue := remove1 q (put_queue r)\<rparr>"

section \<open>HospitalProcess\<close>

text \<open>
  The attributes of a \<open>HospitalProcess\<close> object.  \<open>resource_wait_times\<close> is the dictionary
  that \<open>run\<close> creates empty, \<open>service_time\<close> is set when the service period starts.
  The two-element \<open>time_range\<close> is a pair.
\<close>

record hospital_process =
  task_name :: string
  resource_names :: "string list"
  time_min :: real
  time_max :: real
  resource_wait_times :: "string \<rightharpoonup> pyfloat"
  service_time :: "real option"

definition HospitalProcess :: "string \<Rightarrow> string list \<Rightarrow> real \<times> real \<Rightarrow> hospital_process" where
  "HospitalProcess name names time_range =
     \<lparr>task_name = name, resource_names = names,
      time_min = fst time_range, time_max = snd time_range,
      resource_wait_times = Map.empty, service_time = None\<rparr>"

text \<open>
  \<open>request_resource_and_monitor_time\<close>, from the point where the generator is resumed
  after \<open>yield request_process | self.env.timeout(10000)\<close>: \<open>t\<close> is \<open>env.now\<close>,
  \<open>start\<close> is \<open>start_time\<close> and \<open>in_result\<close> says whether the request is in the result
  of the condition.
\<close>

definition request_resource_and_monitor_time ::
  "string \<Rightarrow> real \<Rightarrow> real \<Rightarrow> bool \<Rightarrow> hospital_process \<Rightarrow> hospital_process" where
  "request_resource_and_monitor_time resource_to_request start t in_result h =
     (if in_result
      then h\<lparr>resource_wait_times := (resource_wait_times h)(resource_to_request \<mapsto> Finite (t - start))\<rparr>
      else h\<lparr>resource_wait_times := (resource_wait_times h)(resource_to_request \<mapsto> PosInf)\<rparr>)"

text \<open>The threshold of the timeout that every request is raced against.\<close>

definition timeout_threshold :: real where
  "timeout_threshold = 10000"

text \<open>
  The first statement of \<open>run\<close> that touches the pools,
  \<open>[self.shared_resources[res].request() for res in self.resource_names]\<close>: the
  requests are issued from left to right, the next request object has number \<open>n\<close>,
  and an absent name raises \<open>KeyError\<close> after the earlier requests were issued.
\<close>

fun request_all ::
  "string list \<Rightarrow> (string \<rightharpoonup> resource) \<Rightarrow> nat \<Rightarrow> py_error + (string \<rightharpoonup> resource) \<times> request list" where
  "request_all [] shared n = Inr (shared, [])"
| "request_all (res # rest) shared n =
     (case shared res of
        None \<Rightarrow> Inl KeyError
      | Some r \<Rightarrow>
          (case request_all rest (shared(res \<mapsto> request n r)) (Suc n) of
             Inl e \<Rightarrow> Inl e
           | Inr (shared', store) \<Rightarrow> Inr (shared', n # store)))"

text \<open>
  The last loop of \<open>run\<close>,
  \<open>for res, request in zip(self.resource_names, request_store): self.shared_resources[res].release(request)\<close>.
\<close>

fun release_all ::
  "(string \<times> request) list \<Rightarrow> (string \<rightharpoonup> resource) \<Rightarrow> py_error + (string \<rightharpoonup> resource)" where
  "release_all [] shared = Inr shared"
| "release_all ((res, q) # rest) shared =
     (case shared res of
        None \<Rightarrow> Inl KeyError
      | Some r \<Rightarrow> release_all rest (shared(res \<mapsto> release q r)))"

section \<open>SimpySimulation\<close>

type_synonym process = "string \<times> string list \<times> real \<times> real"

type_synonym log_row = "string \<times> real \<times> real"

record simpy_simulation =
  resource_dict :: "(string \<times> int) list"
  warmup_period :: real
  process_list :: "process list"
  log_process_list :: "string list"
  patient_log_data :: "log_row list"
  resource_busy_time :: "(string \<times> int) list"
  simulation_time :: real

text \<open>\<open>SimpySimulation.__init__\<close>; the dictionaries that are iterated are association lists.\<close>

definition SimpySimulation ::
  "(string \<times> int) list \<Rightarrow> process list \<Rightarrow> string list \<Rightarrow> real \<Rightarrow> real \<Rightarrow> simpy_simulation" where
  "SimpySimulation rd pl lpl warmup until =
     \<lparr>resource_dict = rd, warmup_period = warmup, process_list = pl,
      log_process_list = lpl, patient_log_data = [],
      resource_busy_time = map (\<lambda>res. (res, 0)) (map fst rd),
      simulation_time = until\<rparr>"

definition default_warmup_period :: real where
  "default_warmup_period = 160 * 24 * 60"

definition default_until :: real where
  "default_until = 360 * 24 * 60"

text \<open>
  \<open>setup_resource_environment\<close>: the dictionary comprehension builds one pool per entry,
  from left to right, and stops at the first capacity that \<open>simpy.Resource\<close> rejects.
\<close>

fun setup_loop ::
  "(string \<times> int) list \<Rightarrow> (string \<rightharpoonup> resource) \<Rightarrow> py_error + (string \<rightharpoonup> resource)" where
  "setup_loop [] acc = Inr acc"
| "setup_loop ((res, cap) # rest) acc =
     (case Resource cap of
        Inl e \<Rightarrow> Inl e
      | Inr r \<Rightarrow> setup_loop rest (acc(res \<mapsto> r)))"

definition setup_resource_environment ::
  "(string \<times> int) list \<Rightarrow> py_error + (string \<rightharpoonup> resource)" where
  "setup_resource_environment rd = setup_loop rd Map.empty"

section \<open>The processes of a run\<close>

text \<open>
  \<open>str(n)\<close> for a non-negative integer, as the f-strings of \<open>patient_arrivals\<close> and
  \<open>patient_process\<close> format the patient number.
\<close>

fun str_nat :: "nat \<Rightarrow> string" where
  "str_nat n =
     (if n < 10 then [''0123456789'' ! n]
      else str_nat (n div 10) @ [''0123456789'' ! (n mod 10)])"

declare str_nat.simps [simp del]

text \<open>
  One generator \<open>request_resource_and_monitor_time\<close>.  Its local variables are the
  resource name, the request and \<open>start_time\<close>; \<open>owner\<close> is the \<open>HospitalProcess\<close>
  object it is bound to (an index into the stages of the run).  It is \<open>Pending\<close> while
  it is suspended in the race; once resumed it has returned, and the branch it took is
  kept together with the virtual time at which it was resumed.
\<close>

datatype outcome = Pending | Granted real | TimedOut real

record monitor =
  owner :: nat
  resource_to_request :: string
  request_process :: request
  start_time :: real
  outcome :: outcome

text \<open>
  One generator \<open>HospitalProcess.run\<close> with the object it runs on: suspended at
  \<open>yield self.env.all_of(parallel_requests)\<close>, suspended at
  \<open>yield self.env.timeout(self.service_time)\<close> until the given time, or returned.
\<close>

datatype pc = AtJoin | InService real | Returned

record stage =
  hp :: hospital_process
  request_store :: "request list"
  pc :: pc

text \<open>
  One generator \<open>patient_process\<close>: the processes the \<open>for\<close> loop has not started yet
  and the stage it is waiting for, if any.
\<close>

record patient =
  patient_id :: string
  remaining :: "process list"
  current_stage :: "nat option"

text \<open>
  The state of a run: the \<open>SimpySimulation\<close> object, the clock \<open>env.now\<close>, the shared
  pools, every monitor, stage and patient process started so far, the counter
  \<open>patient_id\<close> of \<open>patient_arrivals\<close> and the time at which that generator wakes.
  Request objects are numbered in the order of their creation, and every request gets
  one monitor, so request \<open>n\<close> is raced by monitor \<open>n\<close>.
\<close>

record world =
  self :: simpy_simulation
  now :: real
  resources :: "string \<rightharpoonup> resource"
  monitors :: "monitor list"
  stages :: "stage list"
  patients :: "patient list"
  next_patient_id :: nat
  arrival_due :: real

text \<open>
  \<open>begin\<close> up to the call of \<open>env.run\<close>: the pools are built, which fails for a capacity
  that is not positive, and \<open>patient_arrivals\<close> draws its first gap.
\<close>

definition begin_run :: "simpy_simulation \<Rightarrow> real \<Rightarrow> py_error + world" where
  "begin_run sim gap =
     (case setup_resource_environment (resource_dict sim) of
        Inl e \<Rightarrow> Inl e
      | Inr shared \<Rightarrow>
          Inr \<lparr>self = sim, now = 0, resources = shared, monitors = [], stages = [],
               patients = [], next_patient_id = 0, arrival_due = gap\<rparr>)"

text \<open>
  A pending monitor is resumed in the virtual instant in which the pool grants its
  request; it then takes the branch \<open>request_process in result\<close>.
\<close>

definition granted_now :: "world \<Rightarrow> monitor \<Rightarrow> bool" where
  "granted_now w m \<longleftrightarrow>
     outcome m = Pending \<and>
     (case resources w (resource_to_request m) of
        None \<Rightarrow> False
      | Some r \<Rightarrow> request_process m \<in> set (users r))"

definition resume :: "real \<Rightarrow> bool \<Rightarrow> monitor \<Rightarrow> stage list \<Rightarrow> stage list" where
  "resume t in_result m ss =
     ss[owner m := (ss ! owner m)\<lparr>hp :=
          request_resource_and_monitor_time (resource_to_request m) (start_time m) t in_result
            (hp (ss ! owner m))\<rparr>]"

definition deliver :: "world \<Rightarrow> world" where
  "deliver w =
     w\<lparr>monitors := map (\<lambda>m. if granted_now w m then m\<lparr>outcome := Granted (now w)\<rparr> else m) (monitors w),
       stages := foldl (\<lambda>ss m. if granted_now w m then resume (now w) True m ss else ss)
                   (stages w) (monitors w)\<rparr>"

text \<open>
  \<open>patient_arrivals\<close> resumed after its timeout: it starts a patient process, counts
  and draws the next gap.
\<close>

definition arrive :: "real \<Rightarrow> world \<Rightarrow> world" where
  "arrive gap w =
     w\<lparr>patients := patients w @
          [\<lparr>patient_id = ''Patient '' @ str_nat (next_patient_id w),
            remaining = process_list (self w), current_stage = None\<rparr>],
       next_patient_id := Suc (next_patient_id w),
       arrival_due := now w + gap\<rparr>"

text \<open>
  One iteration of the loop of \<open>patient_process\<close> up to its \<open>yield\<close>: the stage object
  is built and \<open>run\<close> executes up to \<open>yield self.env.all_of(parallel_requests)\<close>,
  issuing every request and starting one monitor for each.
\<close>

definition new_monitors :: "nat \<Rightarrow> real \<Rightarrow> string list \<Rightarrow> request list \<Rightarrow> monitor list" where
  "new_monitors s t names store =
     map (\<lambda>(res, req). \<lparr>owner = s, resource_to_request = res, request_process = req,
                         start_time = t, outcome = Pending\<rparr>) (zip names store)"

definition start_run :: "nat \<Rightarrow> world \<Rightarrow> py_error + world" where
  "start_run p w =
     (case remaining (patients w ! p) of
        [] \<Rightarrow> Inr w
      | (name, names, time_range) # rest \<Rightarrow>
          (let h = HospitalProcess (''Patient '' @ patient_id (patients w ! p) @ '' - '' @ name)
                     names time_range
           in case request_all (resource_names h) (resources w) (length (monitors w)) of
                Inl e \<Rightarrow> Inl e
              | Inr (shared, store) \<Rightarrow>
                  Inr (w\<lparr>resources := shared,
                         monitors := monitors w @
                           new_monitors (length (stages w)) (now w) (resource_names h) store,
                         stages := stages w @ [\<lparr>hp = h, request_store = store, pc = AtJoin\<rparr>],
                         patients := (patients w)
                           [p := (patients w ! p)\<lparr>remaining := rest,
                                   current_stage := Some (length (stages w))\<rparr>]\<rparr>)))"

text \<open>The requests that were granted at once resume their monitors in the same instant.\<close>

definition begin_stage :: "nat \<Rightarrow> world \<Rightarrow> py_error + world" where
  "begin_stage p w =
     (case start_run p w of Inl e \<Rightarrow> Inl e | Inr w' \<Rightarrow> Inr (deliver w'))"

text \<open>A monitor resumed by its timeout: the branch \<open>else\<close>.  The pools are not touched.\<close>

definition timeout :: "nat \<Rightarrow> world \<Rightarrow> world" where
  "timeout i w =
     w\<lparr>monitors := (monitors w)[i := (monitors w ! i)\<lparr>outcome := TimedOut (now w)\<rparr>],
       stages := resume (now w) False (monitors w ! i) (stages w)\<rparr>"

text \<open>
  \<open>run\<close> resumed after the join: \<open>np.random.uniform(time_min, time_max)\<close> is
  \<open>time_min + (time_max - time_min) * x\<close> for a draw \<open>x\<close> from \<open>[0, 1)\<close>, and
  \<open>env.timeout\<close> raises \<open>ValueError\<close> for a negative delay.
\<close>

definition join :: "nat \<Rightarrow> real \<Rightarrow> world \<Rightarrow> py_error + world" where
  "join s x w =
     (let st = stages w ! s;
          d = time_min (hp st) + (time_max (hp st) - time_min (hp st)) * x
      in if d < 0 then Inl ValueError
         else Inr (w\<lparr>stages := (stages w)
                     [s := st\<lparr>hp := (hp st)\<lparr>service_time := Some d\<rparr>,
                              pc := InService (now w + d)\<rparr>]\<rparr>))"

text \<open>
  \<open>run\<close> resumed after the service period: the release loop, after which the generator
  returns and the patient process goes on with its loop.
\<close>

definition release_calls :: "stage \<Rightarrow> (string \<times> request) list" where
  "release_calls st = zip (resource_names (hp st)) (request_store st)"

definition finish_run :: "nat \<Rightarrow> world \<Rightarrow> py_error + world" where
  "finish_run p w =
     (case current_stage (patients w ! p) of
        None \<Rightarrow> Inr w
      | Some s \<Rightarrow>
          (case release_all (release_calls (stages w ! s)) (resources w) of
             Inl e \<Rightarrow> Inl e
           | Inr shared \<Rightarrow>
               Inr (w\<lparr>resources := shared,
                      stages := (stages w)[s := (stages w ! s)\<lparr>pc := Returned\<rparr>],
                      patients := (patients w)[p := (patients w ! p)\<lparr>current_stage := None\<rparr>]\<rparr>)))"

text \<open>The requests that the releases let through resume their monitors in the same instant.\<close>

definition complete :: "nat \<Rightarrow> world \<Rightarrow> py_error + world" where
  "complete p w =
     (case finish_run p w of Inl e \<Rightarrow> Inl e | Inr w' \<Rightarrow> Inr (deliver w'))"

definition tick :: "real \<Rightarrow> world \<Rightarrow> world" where
  "tick d w = w\<lparr>now := now w + d\<rparr>"

subsection \<open>When each step can happen\<close>

text \<open>
  \<open>env.run(until=simulation_time)\<close> processes events in the order of their time and
  stops before any event at \<open>simulation_time\<close>.  The clock moves only to the time of
  the next event, so it never passes a pending timeout, the end of a service period or
  the next arrival, and it does not move while a process is ready to run.
\<close>

definition running :: "world \<Rightarrow> bool" where
  "running w \<longleftrightarrow> now w < simulation_time (self w)"

definition joined :: "world \<Rightarrow> stage \<Rightarrow> bool" where
  "joined w st \<longleftrightarrow> (\<forall>q \<in> set (request_store st). outcome (monitors w ! q) \<noteq> Pending)"

definition can_arrive :: "world \<Rightarrow> real \<Rightarrow> bool" where
  "can_arrive w gap \<longleftrightarrow> running w \<and> now w = arrival_due w \<and> 0 < gap"

definition can_begin_stage :: "world \<Rightarrow> nat \<Rightarrow> bool" where
  "can_begin_stage w p \<longleftrightarrow>
     running w \<and> p < length (patients w) \<and>
     current_stage (patients w ! p) = None \<and> remaining (patients w ! p) \<noteq> []"

definition can_timeout :: "world \<Rightarrow> nat \<Rightarrow> bool" where
  "can_timeout w i \<longleftrightarrow>
     running w \<and> i < length (monitors w) \<and> outcome (monitors w ! i) = Pending \<and>
     now w = start_time (monitors w ! i) + timeout_threshold"

definition can_join :: "world \<Rightarrow> nat \<Rightarrow> real \<Rightarrow> bool" where
  "can_join w s x \<longleftrightarrow>
     running w \<and> s < length (stages w) \<and> pc (stages w ! s) = AtJoin \<and>
     joined w (stages w ! s) \<and> 0 \<le> x \<and> x < 1"

definition can_complete :: "world \<Rightarrow> nat \<Rightarrow> bool" where
  "can_complete w p \<longleftrightarrow>
     running w \<and> p < length (patients w) \<and>
     (case current_stage (patients w ! p) of
        None \<Rightarrow> False
      | Some s \<Rightarrow> s < length (stages w) \<and> pc (stages w ! s) = InService (now w))"

fun stage_allows :: "world \<Rightarrow> real \<Rightarrow> stage \<Rightarrow> bool" where
  "stage_allows w t st =
     (case pc st of
        AtJoin \<Rightarrow> \<not> joined w st
      | InService u \<Rightarrow> t \<le> u
      | Returned \<Rightarrow> True)"

definition can_tick :: "world \<Rightarrow> real \<Rightarrow> bool" where
  "can_tick w d \<longleftrightarrow>
     0 < d \<and> now w + d \<le> simulation_time (self w) \<and> now w + d \<le> arrival_due w \<and>
     (\<forall>m \<in> set (monitors w). outcome m = Pending \<longrightarrow> now w + d \<le> start_time m + timeout_threshold) \<and>
     (\<forall>st \<in> set (stages w). stage_allows w (now w + d) st) \<and>
     (\<forall>p \<in> set (patients w). current_stage p = None \<longrightarrow> remaining p = [])"

text \<open>
  The states of \<open>env.run\<close> for a simulation object: any run of the steps from the state
  that \<open>begin\<close> sets up.
\<close>

inductive reachable :: "simpy_simulation \<Rightarrow> world \<Rightarrow> bool" where
  r_begin: "begin_run sim gap = Inr w \<Longrightarrow> 0 < gap \<Longrightarrow> reachable sim w"
| r_arrive: "reachable sim w \<Longrightarrow> can_arrive w gap \<Longrightarrow> reachable sim (arrive gap w)"
| r_begin_stage:
    "reachable sim w \<Longrightarrow> can_begin_stage w p \<Longrightarrow> begin_stage p w = Inr w' \<Longrightarrow> reachable sim w'"
| r_timeout: "reachable sim w \<Longrightarrow> can_timeout w i \<Longrightarrow> reachable sim (timeout i w)"
| r_join: "reachable sim w \<Longrightarrow> can_join w s x \<Longrightarrow> join s x w = Inr w' \<Longrightarrow> reachable sim w'"
| r_complete: "reachable sim w \<Longrightarrow> can_complete w p \<Longrightarrow> complete p w = Inr w' \<Longrightarrow> reachable sim w'"
| r_tick: "reachable sim w \<Longrightarrow> can_tick w d \<Longrightarrow> reachable sim (tick d w)"

section \<open>Running a schedule\<close>

text \<open>
  A schedule names the steps of a run one by one; \<open>exec\<close> performs a step if it can
  happen and does not raise, so that a concrete run can be evaluated.
\<close>

datatype step =
  Arrive real | BeginStage nat | Timeout nat | Join nat real | Complete nat | Tick real

fun exec :: "step \<Rightarrow> world \<Rightarrow> world option" where
  "exec (Arrive gap) w = (if can_arrive w gap then Some (arrive gap w) else None)"
| "exec (BeginStage p) w =
     (if can_begin_stage w p
      then (case begin_stage p w of Inl e \<Rightarrow> None | Inr w' \<Rightarrow> Some w')
      else None)"
| "exec (Timeout i) w = (if can_timeout w i then Some (timeout i w) else None)"
| "exec (Join s x) w =
     (if can_join w s x
      then (case join s x w of Inl e \<Rightarrow> None | Inr w' \<Rightarrow> Some w')
      else None)"
| "exec (Complete p) w =
     (if can_complete w p
      then (case complete p w of Inl e \<Rightarrow> None | Inr w' \<Rightarrow> Some w')
      else None)"
| "exec (Tick d) w = (if can_tick w d then Some (tick d w) else None)"

fun exec_all :: "step list \<Rightarrow> world \<Rightarrow> world option" where
  "exec_all [] w = Some w"
| "exec_all (s # ss) w = (case exec s w of None \<Rightarrow> None | Some w' \<Rightarrow> exec_all ss w')"

subsection \<open>A run in which a request is granted after its timeout\<close>

text \<open>
  One bed, one stage that needs it for 20000 minutes or more.  Patient 0 arrives at
  time 1 and gets the bed; patient 1 arrives at time 2 and waits.  At time 10002 the
  timeout of patient 1 fires, and patient 1 starts its service period without the bed.
  At time 20001 patient 0 releases the bed.
\<close>

definition late_sim :: simpy_simulation where
  "late_sim = SimpySimulation [(''Bed'', 1)] [(''Triage'', [''Bed''], (20000, 30000))] []
     default_warmup_period default_until"

definition late_begin :: world where
  "late_begin =
     \<lparr>self = late_sim, now = 0,
      resources = [''Bed'' \<mapsto> \<lparr>capacity = 1, users = [], put_queue = []\<rparr>],
      monitors = [], stages = [], patients = [], next_patient_id = 0, arrival_due = 1\<rparr>"

definition late_schedule :: "step list" where
  "late_schedule =
     [Tick 1, Arrive 1, BeginStage 0, Join 0 0, Tick 1, Arrive 100000, BeginStage 1,
      Tick 10000, Timeout 1, Join 1 0, Tick 9999, Complete 0]"

definition late_hp :: "string \<Rightarrow> pyfloat \<Rightarrow> hospital_process" where
  "late_hp name wait =
     \<lparr>task_name = name, resource_names = [''Bed''], time_min = 20000, time_max = 30000,
      resource_wait_times = [''Bed'' \<mapsto> wait], service_time = Some 20000\<rparr>"

definition late_monitors :: "monitor list" where
  "late_monitors =
     [\<lparr>owner = 0, resource_to_request = ''Bed'', request_process = 0,
       start_time = 1, outcome = Granted 1\<rparr>,
      \<lparr>owner = 1, resource_to_request = ''Bed'', request_process = 1,
       start_time = 2, outcome = TimedOut 10002\<rparr>]"

text \<open>The state after the schedule: request 1 timed out at 10002 and is a user of the bed.\<close>

definition late_grant :: world where
  "late_grant =
     \<lparr>self = late_sim, now = 20001,
      resources = [''Bed'' \<mapsto> \<lparr>capacity = 1, users = [1], put_queue = []\<rparr>],
      monitors = late_monitors,
      stages =
        [\<lparr>hp = late_hp ''Patient Patient 0 - Triage'' (Finite 0), request_store = [0],
          pc = Returned\<rparr>,
         \<lparr>hp = late_hp ''Patient Patient 1 - Triage'' PosInf, request_store = [1],
          pc = InService 30002\<rparr>],
      patients =
        [\<lparr>patient_id = ''Patient 0'', remaining = [], current_stage = None\<rparr>,
         \<lparr>patient_id = ''Patient 1'', remaining = [], current_stage = Some 1\<rparr>],
      next_patient_id = 2, arrival_due = 100002\<rparr>"

subsection \<open>A run of a configuration that is not valid\<close>

text \<open>
  A configuration with every defect at once: a capacity of zero, a stage that names a
  resource that is not in the pool, and a service range with \<open>min > max\<close>.
\<close>

definition bad_sim :: simpy_simulation where
  "bad_sim = SimpySimulation [(''Bed'', 0)] [(''Triage'', [''Couch''], (30, 20))] []
     default_warmup_period default_until"

text \<open>
  With a positive capacity the run starts.  The first stage has the range \<open>[30, 20]\<close>,
  the second stage names the resource \<open>Couch\<close>, which the pool does not have.
\<close>

definition invalid_sim :: simpy_simulation where
  "invalid_sim =
     SimpySimulation [(''Bed'', 1)]
       [(''Check'', [''Bed''], (30, 20)), (''Triage'', [''Couch''], (5, 10))] []
       default_warmup_period default_until"

definition invalid_begin :: world where
  "invalid_begin =
     \<lparr>self = invalid_sim, now = 0,
      resources = [''Bed'' \<mapsto> \<lparr>capacity = 1, users = [], put_queue = []\<rparr>],
      monitors = [], stages = [], patients = [], next_patient_id = 0, arrival_due = 1\<rparr>"

definition invalid_hp :: "real option \<Rightarrow> hospital_process" where
  "invalid_hp service =
     \<lparr>task_name = ''Patient Patient 0 - Check'', resource_names = [''Bed''],
      time_min = 30, time_max = 20, resource_wait_times = [''Bed'' \<mapsto> Finite 0],
      service_time = service\<rparr>"

definition invalid_monitors :: "monitor list" where
  "invalid_monitors =
     [\<lparr>owner = 0, resource_to_request = ''Bed'', request_process = 0,
       start_time = 1, outcome = Granted 1\<rparr>]"

text \<open>After \<open>[Tick 1, Arrive 100, BeginStage 0]\<close>: the first stage is at its join.\<close>

definition invalid_at_join :: world where
  "invalid_at_join =
     \<lparr>self = invalid_sim, now = 1,
      resources = [''Bed'' \<mapsto> \<lparr>capacity = 1, users = [0], put_queue = []\<rparr>],
      monitors = invalid_monitors,
      stages = [\<lparr>hp = invalid_hp None, request_store = [0], pc = AtJoin\<rparr>],
      patients = [\<lparr>patient_id = ''Patient 0'', remaining = [(''Triage'', [''Couch''], (5, 10))],
                  current_stage = Some 0\<rparr>],
      next_patient_id = 1, arrival_due = 101\<rparr>"

text \<open>
  After \<open>[Join 0 (1/2), Tick 25, Complete 0]\<close> from there: the first stage has
  returned and the patient is about to start the second one.
\<close>

definition invalid_next_stage :: world where
  "invalid_next_stage =
     \<lparr>self = invalid_sim, now = 26,
      resources = [''Bed'' \<mapsto> \<lparr>capacity = 1, users = [], put_queue = []\<rparr>],
      monitors = invalid_monitors,
      stages = [\<lparr>hp = invalid_hp (Some 25), request_store = [0], pc = Returned\<rparr>],
      patients = [\<lparr>patient_id = ''Patient 0'', remaining = [(''Triage'', [''Couch''], (5, 10))],
                  current_stage = None\<rparr>],
      next_patient_id = 1, arrival_due = 101\<rparr>"

section \<open>Invariants of a run\<close>

definition pool_ok :: "resource \<Rightarrow> bool" where
  "pool_ok r \<longleftrightarrow> heldCount r \<le> capacity r"

definition pools_ok :: "(string \<rightharpoonup> resource) \<Rightarrow> bool" where
  "pools_ok shared \<longleftrightarrow> (\<forall>name r. shared name = Some r \<longrightarrow> pool_ok r)"

section \<open>Evaluating a schedule\<close>

lemmas step_defs =
  can_arrive_def can_begin_stage_def can_timeout_def can_join_def can_complete_def
  can_tick_def running_def joined_def arrive_def begin_stage_def start_run_def timeout_def join_def
  complete_def finish_run_def tick_def deliver_def granted_now_def resume_def new_monitors_def
  release_calls_def request_resource_and_monitor_time_def HospitalProcess_def request_def
  release_def trigger_put_def heldCount_def timeout_threshold_def str_nat.simps

lemma exec_reachable: "reachable sim w \<Longrightarrow> exec s w = Some w' \<Longrightarrow> reachable sim w'"
  by (cases s) (auto split: if_splits sum.splits intro: reachable.intros)

lemma exec_all_reachable: "reachable sim w \<Longrightarrow> exec_all ss w = Some w' \<Longrightarrow> reachable sim w'"
proof (induction ss arbitrary: w)
  case Nil
  then show ?case by simp
next
  case (Cons s ss)
  from Cons.prems(2) obtain v where v: "exec s w = Some v" and rest: "exec_all ss v = Some w'"
    by (auto split: option.splits)
  from Cons.prems(1) v have "reachable sim v" by (rule exec_reachable)
  then show ?case using rest by (rule Cons.IH)
qed

lemma late_sim_simps:
  "simulation_time late_sim = 518400"
  "process_list late_sim = [(''Triage'', [''Bed''], (20000, 30000))]"
  by (simp_all add: late_sim_def SimpySimulation_def default_until_def)

lemma begin_run_late: "begin_run late_sim 1 = Inr late_begin"
  by (simp add: begin_run_def setup_resource_environment_def Resource_def late_begin_def
      late_sim_def SimpySimulation_def)

lemma exec_late_schedule: "exec_all late_schedule late_begin = Some late_grant"
  by (simp add: late_schedule_def late_begin_def late_grant_def late_monitors_def late_hp_def
      step_defs late_sim_simps)

lemma reachable_late_grant: "reachable late_sim late_grant"
proof -
  have "reachable late_sim late_begin"
    by (rule r_begin [OF begin_run_late]) simp
  then show ?thesis using exec_late_schedule by (rule exec_all_reachable)
qed

section \<open>The capacity of a pool is never exceeded\<close>

lemma Resource_ok: "Resource cap = Inr r \<Longrightarrow> pool_ok r"
  by (auto simp: Resource_def pool_ok_def heldCount_def split: if_splits)

lemma trigger_put_ok: "pool_ok r \<Longrightarrow> pool_ok (trigger_put r)"
  by (auto simp: trigger_put_def pool_ok_def heldCount_def split: list.splits)

lemma request_ok: "pool_ok r \<Longrightarrow> pool_ok (request q r)"
  unfolding request_def by (rule trigger_put_ok) (simp add: pool_ok_def heldCount_def)

lemma length_remove1_le: "length (remove1 q xs) \<le> length xs"
  by (induction xs) auto

lemma release_ok: "pool_ok r \<Longrightarrow> pool_ok (release q r)"
  unfolding release_def
proof (rule trigger_put_ok)
  assume "pool_ok r"
  moreover have "length (remove1 q (users r)) \<le> length (users r)" by (rule length_remove1_le)
  ultimately show "pool_ok (r\<lparr>users := remove1 q (users r)\<rparr>)"
    by (simp add: pool_ok_def heldCount_def)
qed

lemma cancel_ok: "pool_ok r \<Longrightarrow> pool_ok (cancel q r)"
  by (simp add: cancel_def pool_ok_def heldCount_def)

lemma pools_ok_upd: "pools_ok shared \<Longrightarrow> pool_ok r \<Longrightarrow> pools_ok (shared(name \<mapsto> r))"
  by (simp add: pools_ok_def)

lemma setup_loop_ok: "pools_ok acc \<Longrightarrow> setup_loop rd acc = Inr shared \<Longrightarrow> pools_ok shared"
proof (induction rd arbitrary: acc)
  case Nil
  then show ?case by simp
next
  case (Cons a rd)
  obtain res cap where a: "a = (res, cap)" by (cases a)
  from Cons.prems(2) a obtain r where r: "Resource cap = Inr r"
    and rest: "setup_loop rd (acc(res \<mapsto> r)) = Inr shared"
    by (auto split: sum.splits)
  from Cons.prems(1) Resource_ok [OF r] have "pools_ok (acc(res \<mapsto> r))"
    by (rule pools_ok_upd)
  then show ?case using rest by (rule Cons.IH)
qed

lemma request_all_ok:
  "pools_ok shared \<Longrightarrow> request_all names shared n = Inr (shared', store) \<Longrightarrow> pools_ok shared'"
proof (induction names arbitrary: shared n store)
  case Nil
  then show ?case by simp
next
  case (Cons res rest)
  from Cons.prems(2) obtain r store' where r: "shared res = Some r"
    and rec: "request_all rest (shared(res \<mapsto> request n r)) (Suc n) = Inr (shared', store')"
    by (auto split: option.splits sum.splits)
  from Cons.prems(1) r have "pool_ok r" by (simp add: pools_ok_def)
  then have "pools_ok (shared(res \<mapsto> request n r))"
    using Cons.prems(1) by (intro pools_ok_upd request_ok)
  then show ?case using rec by (rule Cons.IH)
qed

lemma release_all_ok:
  "pools_ok shared \<Longrightarrow> release_all calls shared = Inr shared' \<Longrightarrow> pools_ok shared'"
proof (induction calls arbitrary: shared)
  case Nil
  then show ?case by simp
next
  case (Cons c rest)
  obtain res q where c: "c = (res, q)" by (cases c)
  from Cons.prems(2) c obtain r where r: "shared res = Some r"
    and rec: "release_all rest (shared(res \<mapsto> release q r)) = Inr shared'"
    by (auto split: option.splits)
  from Cons.prems(1) r have "pool_ok r" by (simp add: pools_ok_def)
  then have "pools_ok (shared(res \<mapsto> release q r))"
    using Cons.prems(1) by (intro pools_ok_upd release_ok)
  then show ?case using rec by (rule Cons.IH)
qed

lemma resources_deliver [simp]: "resources (deliver w) = resources w"
  by (simp add: deliver_def)

lemma resources_begin_run: "begin_run sim gap = Inr w \<Longrightarrow> pools_ok (resources w)"
  by (auto simp: begin_run_def setup_resource_environment_def pools_ok_def
      split: sum.splits dest!: setup_loop_ok [rotated])

lemma begin_stage_ok:
  assumes "pools_ok (resources w)" and "begin_stage p w = Inr w'"
  shows "pools_ok (resources w')"
  using assms
  by (auto simp: begin_stage_def start_run_def Let_def split: list.splits sum.splits prod.splits
      dest: request_all_ok)

lemma complete_ok:
  assumes "pools_ok (resources w)" and "complete p w = Inr w'"
  shows "pools_ok (resources w')"
  using assms
  by (auto simp: complete_def finish_run_def split: option.splits sum.splits dest: release_all_ok)

lemma join_resources: "join s x w = Inr w' \<Longrightarrow> resources w' = resources w"
  by (auto simp: join_def Let_def split: if_splits)

lemma reachable_pools_ok: "reachable sim w \<Longrightarrow> pools_ok (resources w)"
proof (induction rule: reachable.induct)
  case (r_begin sim gap w)
  then show ?case by (simp add: resources_begin_run)
next
  case (r_arrive w gap)
  then show ?case by (simp add: arrive_def)
next
  case (r_begin_stage w p w')
  then show ?case by (blast intro: begin_stage_ok)
next
  case (r_timeout w i)
  then show ?case by (simp add: timeout_def)
next
  case (r_join w s x w')
  then show ?case by (simp add: join_resources)
next
  case (r_complete w p w')
  then show ?case by (blast intro: complete_ok)
next
  case (r_tick w d)
  then show ?case by (simp add: tick_def)
qed

text \<open>
  C3.  In every state that a run can reach, by any interleaving of requests, grants,
  timeouts and releases, every resource pool holds between zero and \<open>capacity\<close> units.
\<close>

theorem held_count_within_capacity:
  assumes "reachable sim w" and "resources w name = Some r"
  shows "0 \<le> heldCount r \<and> heldCount r \<le> capacity r"
proof -
  from assms(1) have "pools_ok (resources w)" by (rule reachable_pools_ok)
  with assms(2) have "heldCount r \<le> capacity r" by (simp add: pools_ok_def pool_ok_def)
  moreover have "0 \<le> heldCount r" by (simp add: heldCount_def)
  ultimately show ?thesis by simp
qed

theorem held_count_within_capacity_witness:
  "reachable late_sim late_grant \<and>
   resources late_grant ''Bed'' = Some \<lparr>capacity = 1, users = [1], put_queue = []\<rparr> \<and>
   0 \<le> heldCount \<lparr>capacity = 1, users = [1], put_queue = []\<rparr> \<and>
   heldCount \<lparr>capacity = 1, users = [1], put_queue = []\<rparr> \<le> 1"
proof -
  have r: "resources late_grant ''Bed'' = Some \<lparr>capacity = 1, users = [1], put_queue = []\<rparr>"
    by (simp add: late_grant_def)
  show ?thesis
    using held_count_within_capacity [OF reachable_late_grant r] reachable_late_grant r
    by simp
qed

section \<open>The simulation object during a run\<close>

lemma self_deliver [simp]: "self (deliver w) = self w"
  by (simp add: deliver_def)

lemma reachable_self: "reachable sim w \<Longrightarrow> self w = sim"
proof (induction rule: reachable.induct)
  case (r_begin sim gap w)
  then show ?case by (auto simp: begin_run_def split: sum.splits)
next
  case (r_arrive sim w gap)
  then show ?case by (simp add: arrive_def)
next
  case (r_begin_stage sim w p w')
  then show ?case
    by (auto simp: begin_stage_def start_run_def Let_def split: list.splits sum.splits prod.splits)
next
  case (r_timeout sim w i)
  then show ?case by (simp add: timeout_def)
next
  case (r_join sim w s x w')
  then show ?case by (auto simp: join_def Let_def split: if_splits)
next
  case (r_complete sim w p w')
  then show ?case by (auto simp: complete_def finish_run_def split: option.splits sum.splits)
next
  case (r_tick sim w d)
  then show ?case by (simp add: tick_def)
qed

text \<open>
  C10.  \<open>resource_busy_time\<close> maps every resource to 0 at construction, and no step of a
  run writes it: in every state of every run, also the last one, the recorded busy time
  of every resource is 0.
\<close>

theorem resource_busy_time_always_zero:
  assumes "reachable (SimpySimulation rd pl lpl warmup until) w"
  shows "resource_busy_time (self w) = map (\<lambda>res. (res, 0)) (map fst rd) \<and>
         (\<forall>res \<in> set (map fst rd). map_of (resource_busy_time (self w)) res = Some 0)"
proof -
  from assms have s: "self w = SimpySimulation rd pl lpl warmup until" by (rule reachable_self)
  have b: "resource_busy_time (self w) = map (\<lambda>res. (res, 0)) (map fst rd)"
    by (simp add: s SimpySimulation_def)
  have z: "map_of (map (\<lambda>res. (res, 0::int)) ks) res = Some 0" if "res \<in> set ks" for ks res
    using that by (induction ks) auto
  have "\<forall>res \<in> set (map fst rd). map_of (resource_busy_time (self w)) res = Some 0"
    unfolding b by (intro ballI z)
  with b show ?thesis by blast
qed

theorem resource_busy_time_always_zero_witness:
  "reachable late_sim late_grant \<and> resource_busy_time (self late_grant) = [(''Bed'', 0)] \<and>
   map_of (resource_busy_time (self late_grant)) ''Bed'' = Some 0"
  using resource_busy_time_always_zero
    [of "[(''Bed'', 1)]" "[(''Triage'', [''Bed''], (20000, 30000))]" "[]"
      default_warmup_period default_until late_grant]
    reachable_late_grant
  by (simp add: late_sim_def)

lemma reachable_log_empty:
  "reachable (SimpySimulation rd pl lpl warmup until) w \<Longrightarrow> patient_log_data (self w) = []"
  by (drule reachable_self) (simp add: SimpySimulation_def)

text \<open>
  C5.  The source never appends to \<open>patient_log_data\<close>.  In the run of
  \<open>late_schedule\<close> patient 0 has completed its only stage, and the log is empty.
\<close>

theorem completed_patient_not_logged:
  "reachable late_sim late_grant \<and>
   remaining (patients late_grant ! 0) = [] \<and> current_stage (patients late_grant ! 0) = None \<and>
   pc (stages late_grant ! 0) = Returned \<and>
   patient_log_data (self late_grant) = []"
  using reachable_late_grant
  by (simp add: late_grant_def late_sim_def SimpySimulation_def)

section \<open>Configurations that are not valid\<close>

text \<open>
  C8, as stated, fails: constructing the simulation with a capacity of zero, a stage that
  names an absent resource and a range with \<open>min > max\<close> returns the initialised
  object, and so does the constructor of \<open>HospitalProcess\<close>.
\<close>

theorem construction_accepts_invalid_configuration:
  "bad_sim =
     \<lparr>resource_dict = [(''Bed'', 0)], warmup_period = 230400,
      process_list = [(''Triage'', [''Couch''], (30, 20))], log_process_list = [],
      patient_log_data = [], resource_busy_time = [(''Bed'', 0)], simulation_time = 518400\<rparr> \<and>
   HospitalProcess ''Triage'' [''Couch''] (30, 20) =
     \<lparr>task_name = ''Triage'', resource_names = [''Couch''], time_min = 30, time_max = 20,
      resource_wait_times = Map.empty, service_time = None\<rparr>"
  by (simp add: bad_sim_def SimpySimulation_def HospitalProcess_def default_warmup_period_def default_until_def)

lemma setup_loop_ValueError:
  "(res, cap) \<in> set rd \<Longrightarrow> cap \<le> 0 \<Longrightarrow> setup_loop rd acc = Inl ValueError"
proof (induction rd arbitrary: acc)
  case Nil
  then show ?case by simp
next
  case (Cons a rd)
  obtain res' cap' where a: "a = (res', cap')" by (cases a)
  show ?case
  proof (cases "cap' \<le> 0")
    case True
    with a show ?thesis by (simp add: Resource_def)
  next
    case False
    with Cons.prems a have "(res, cap) \<in> set rd" by auto
    then have "setup_loop rd (acc(res' \<mapsto> \<lparr>capacity = cap', users = [], put_queue = []\<rparr>)) = Inl ValueError"
      using Cons.prems(2) by (rule Cons.IH)
    with a False show ?thesis by (simp add: Resource_def)
  qed
qed

lemma request_all_KeyError:
  "res \<in> set names \<Longrightarrow> shared res = None \<Longrightarrow> request_all names shared n = Inl KeyError"
proof (induction names arbitrary: shared n)
  case Nil
  then show ?case by simp
next
  case (Cons a names)
  show ?case
  proof (cases "shared a")
    case None
    then show ?thesis by simp
  next
    case (Some r)
    with Cons.prems have "res \<noteq> a" by auto
    with Cons.prems have "res \<in> set names" and "(shared(a \<mapsto> request n r)) res = None"
      by auto
    then have "request_all names (shared(a \<mapsto> request n r)) (Suc n) = Inl KeyError"
      by (rule Cons.IH)
    with Some show ?thesis by simp
  qed
qed

lemma reversed_range_delay:
  fixes lo hi x :: real
  assumes "0 \<le> hi" and "hi \<le> lo" and "0 \<le> x" and "x < 1"
  shows "\<not> lo + (hi - lo) * x < 0"
proof -
  have "(lo - hi) * x \<le> (lo - hi) * 1"
    using assms by (intro mult_left_mono) auto
  then have "hi \<le> lo + (hi - lo) * x" by (simp add: algebra_simps)
  with assms(1) show ?thesis by simp
qed

lemma invalid_sim_simps:
  "simulation_time invalid_sim = 518400"
  "process_list invalid_sim = [(''Check'', [''Bed''], (30, 20)), (''Triage'', [''Couch''], (5, 10))]"
  by (simp_all add: invalid_sim_def SimpySimulation_def default_until_def)

lemma begin_run_invalid: "begin_run invalid_sim 1 = Inr invalid_begin"
  by (simp add: begin_run_def setup_resource_environment_def Resource_def invalid_begin_def
      invalid_sim_def SimpySimulation_def)

lemma exec_invalid_at_join:
  "exec_all [Tick 1, Arrive 100, BeginStage 0] invalid_begin = Some invalid_at_join"
  by (simp add: invalid_begin_def invalid_at_join_def invalid_monitors_def invalid_hp_def
      step_defs invalid_sim_simps)

lemma exec_invalid_next_stage:
  "exec_all [Join 0 (1/2), Tick 25, Complete 0] invalid_at_join = Some invalid_next_stage"
  by (simp add: invalid_at_join_def invalid_next_stage_def invalid_monitors_def invalid_hp_def
      step_defs invalid_sim_simps)

lemma reachable_invalid_at_join: "reachable invalid_sim invalid_at_join"
proof -
  have "reachable invalid_sim invalid_begin"
    by (rule r_begin [OF begin_run_invalid]) simp
  then show ?thesis using exec_invalid_at_join by (rule exec_all_reachable)
qed

lemma reachable_invalid_next_stage: "reachable invalid_sim invalid_next_stage"
  using reachable_invalid_at_join exec_invalid_next_stage by (rule exec_all_reachable)

text \<open>
  C8, amended.  Construction validates nothing and never raises: it returns the
  initialised object for every configuration.  A capacity that is zero or negative is
  rejected only when \<open>begin\<close> builds the pools, by the \<open>ValueError\<close> of
  \<open>simpy.Resource\<close>, before any event is scheduled.  A resource name that is absent from
  the pool raises \<open>KeyError\<close> only when a stage requests it during the run.  A service
  range with \<open>min > max\<close> is not rejected: the service period starts.
\<close>

theorem construction_never_validates:
  "patient_log_data (SimpySimulation rd pl lpl warmup until) = [] \<and>
   resource_dict (SimpySimulation rd pl lpl warmup until) = rd \<and>
   process_list (SimpySimulation rd pl lpl warmup until) = pl \<and>
   ((res, cap) \<in> set rd \<and> cap \<le> 0 \<longrightarrow>
      begin_run (SimpySimulation rd pl lpl warmup until) gap = Inl ValueError) \<and>
   (remaining (patients w ! p) = (name, names, time_range) # rest \<and>
    absent \<in> set names \<and> resources w absent = None \<longrightarrow>
      begin_stage p w = Inl KeyError) \<and>
   (0 \<le> time_max (hp (stages v ! s)) \<and>
    time_max (hp (stages v ! s)) \<le> time_min (hp (stages v ! s)) \<and>
    0 \<le> x \<and> x < 1 \<longrightarrow> (\<exists>v'. join s x v = Inr v'))"
proof -
  have "begin_run (SimpySimulation rd pl lpl warmup until) gap = Inl ValueError"
    if "(res, cap) \<in> set rd" and "cap \<le> 0"
    using setup_loop_ValueError [OF that, of Map.empty]
    by (simp add: begin_run_def setup_resource_environment_def SimpySimulation_def)
  moreover have "begin_stage p w = Inl KeyError"
    if "remaining (patients w ! p) = (name, names, time_range) # rest"
      and "absent \<in> set names" and "resources w absent = None"
    using that request_all_KeyError [of absent names "resources w" "length (monitors w)"]
    by (simp add: begin_stage_def start_run_def HospitalProcess_def)
  moreover have "\<exists>v'. join s x v = Inr v'"
    if "0 \<le> time_max (hp (stages v ! s))"
      and "time_max (hp (stages v ! s)) \<le> time_min (hp (stages v ! s))"
      and "0 \<le> x" and "x < 1"
    using reversed_range_delay [OF that] by (simp add: join_def Let_def)
  ultimately show ?thesis by (simp add: SimpySimulation_def)
qed

theorem construction_never_validates_witness:
  "((''Bed'', 0) \<in> set [(''Bed'', 0::int)] \<and> (0::int) \<le> 0 \<and>
    begin_run bad_sim 1 = Inl ValueError) \<and>
   (reachable invalid_sim invalid_next_stage \<and> can_begin_stage invalid_next_stage 0 \<and>
    remaining (patients invalid_next_stage ! 0) = [(''Triage'', [''Couch''], (5, 10))] \<and>
    resources invalid_next_stage ''Couch'' = None \<and>
    begin_stage 0 invalid_next_stage = Inl KeyError) \<and>
   (reachable invalid_sim invalid_at_join \<and> can_join invalid_at_join 0 (1/2) \<and>
    time_max (hp (stages invalid_at_join ! 0)) = 20 \<and>
    time_min (hp (stages invalid_at_join ! 0)) = 30 \<and>
    (\<exists>v'. join 0 (1/2) invalid_at_join = Inr v'))"
proof -
  have a: "remaining (patients invalid_next_stage ! 0) = [(''Triage'', [''Couch''], (5, 10))]"
    "resources invalid_next_stage ''Couch'' = None"
    "can_begin_stage invalid_next_stage 0"
    by (simp_all add: invalid_next_stage_def can_begin_stage_def running_def invalid_sim_simps)
  have b: "time_max (hp (stages invalid_at_join ! 0)) = 20"
    "time_min (hp (stages invalid_at_join ! 0)) = 30"
    "can_join invalid_at_join 0 (1/2)"
    by (simp_all add: invalid_at_join_def invalid_hp_def invalid_monitors_def can_join_def
        joined_def running_def invalid_sim_simps)
  show ?thesis
    using construction_never_validates
      [of "[(''Bed'', 0)]" "[(''Triage'', [''Couch''], (30, 20))]" "[]"
        default_warmup_period default_until "''Bed''" 0 1
        invalid_next_stage 0 "''Triage''" "[''Couch'']" "(5, 10)" "[]" "''Couch''"
        invalid_at_join 0 "1/2"]
      a b reachable_invalid_next_stage reachable_invalid_at_join
    by (simp add: bad_sim_def)
qed

end
